theory Spec2Isabelle
  imports Main
begin

section \<open>Python values, exceptions and the boto3 response shapes\<close>

text \<open>
  The module \<^verbatim>\<open>aws_helpers/athena_helper.py\<close> has three functions:
  \<^verbatim>\<open>start_athena_query\<close>, \<^verbatim>\<open>wait_for_athena_query\<close> and \<^verbatim>\<open>athena_to_s3\<close>.
  They talk to a boto3 Athena client, sleep and print; all of that is made explicit
  below. An exception is a value of type \<open>exn\<close> on the left of a sum.
\<close>

datatype exn =
    KeyError string
  | IndexError
  | ClientError string

text \<open>
  \<^verbatim>\<open>wait_for_athena_query\<close> returns either the file name (a \<^verbatim>\<open>str\<close>) or the
  Python constant \<^verbatim>\<open>False\<close>.
\<close>

datatype py_value = PyStr string | PyFalse

text \<open>
  The response of \<^verbatim>\<open>get_query_execution\<close> is a nested dict; the code tests two of
  its keys with \<^verbatim>\<open>in\<close> and subscripts the others. Every key the code touches is an
  optional field, so that a missing key is a value of the model.
\<close>

record status =
  State :: "string option"
  StateChangeReason :: "string option"

record result_configuration =
  OutputLocation :: "string option"

record query_execution =
  Status :: "status option"
  ResultConfiguration :: "result_configuration option"

record response =
  QueryExecution :: "query_execution option"

record start_response =
  QueryExecutionId :: "string option"

section \<open>The outside world\<close>

text \<open>
  Everything the functions do to the outside is appended to a trace, in the order it
  happens. \<open>Start_query_execution\<close> carries \<^verbatim>\<open>QueryString\<close>, the \<^verbatim>\<open>Database\<close> of
  \<^verbatim>\<open>QueryExecutionContext\<close> and the \<^verbatim>\<open>OutputLocation\<close> of \<^verbatim>\<open>ResultConfiguration\<close>;
  \<open>Get_query_execution\<close> carries \<^verbatim>\<open>QueryExecutionId\<close>; \<open>Print_failed\<close> is the
  first \<^verbatim>\<open>print\<close> of the FAILED branch with the value interpolated for
  \<^verbatim>\<open>{max_execution}\<close>; \<open>Print_status\<close> is the second one; \<open>Sleep\<close> carries the
  argument of \<^verbatim>\<open>time.sleep\<close>.
\<close>

datatype event =
    Start_query_execution string string string
  | Get_query_execution string
  | Print_failed int
  | Print_status status
  | Sleep nat

text \<open>
  The client is the remote service as the program sees it: what its \<open>i\<close>-th call of
  each operation answers (counting from 0), a response or an exception.
\<close>

record athena_client =
  start_query_execution :: "string \<Rightarrow> string \<Rightarrow> string \<Rightarrow> nat \<Rightarrow> exn + start_response"
  get_query_execution :: "string \<Rightarrow> nat \<Rightarrow> exn + response"

fun is_start :: "event \<Rightarrow> bool" where
  "is_start (Start_query_execution q d l) = True"
| "is_start e = False"

fun is_get :: "event \<Rightarrow> bool" where
  "is_get (Get_query_execution i) = True"
| "is_get e = False"

fun is_sleep :: "event \<Rightarrow> bool" where
  "is_sleep (Sleep t) = True"
| "is_sleep e = False"

definition submissions :: "event list \<Rightarrow> nat" where
  "submissions w = length (filter is_start w)"

definition polls :: "event list \<Rightarrow> nat" where
  "polls w = length (filter is_get w)"

definition sleeps :: "event list \<Rightarrow> nat" where
  "sleeps w = length (filter is_sleep w)"

section \<open>The regular expression of the success branch\<close>

text \<open>
  \<^verbatim>\<open>re.findall(r'.*/(.*)', s3_path)[0]\<close>. In Python's default mode \<^verbatim>\<open>.\<close> matches
  every character except the newline. A \<open>char\<close> is a byte; in UTF-8 no byte of a
  character beyond ASCII is the newline or the slash, so on bytes the pattern matches
  as it does on code points.
\<close>

definition dot :: "char \<Rightarrow> bool" where
  "dot c \<longleftrightarrow> c \<noteq> CHR 0x0A"

text \<open>
  \<open>re_match\<close> tries the pattern at the start of the text and gives the group and the
  text left after the match. The star is greedy: it takes one more character first, and
  only when nothing matches behind that does it try the slash here. The group's star
  has nothing behind it, so it takes every character up to the newline.
\<close>

fun re_match :: "string \<Rightarrow> (string \<times> string) option" where
  "re_match [] = None"
| "re_match (c # cs) =
     (case (if dot c then re_match cs else None) of
        Some m \<Rightarrow> Some m
      | None \<Rightarrow> if c = CHR ''/'' then Some (takeWhile dot cs, dropWhile dot cs) else None)"

lemma re_match_shorter: "re_match s = Some (g, rest) \<Longrightarrow> length rest < length s"
proof (induction s arbitrary: g rest)
  case Nil
  then show ?case by simp
next
  case (Cons c cs)
  show ?case
  proof (cases "if dot c then re_match cs else None")
    case None
    with Cons.prems have "rest = dropWhile dot cs"
      by (auto split: if_splits)
    then show ?thesis
      using length_dropWhile_le [of dot cs] by simp
  next
    case (Some m)
    with Cons.prems have "re_match cs = Some (g, rest)"
      by (auto split: if_splits)
    then show ?thesis
      using Cons.IH by fastforce
  qed
qed

text \<open>
  \<open>findall\<close> scans from the left: where the pattern matches it keeps the group and goes
  on behind the match, elsewhere it moves one character on. A match holds a slash, so
  it is never empty.
\<close>

function findall :: "string \<Rightarrow> string list" where
  "findall s =
     (case re_match s of
        Some (g, rest) \<Rightarrow> g # findall rest
      | None \<Rightarrow> (case s of [] \<Rightarrow> [] | c # cs \<Rightarrow> findall cs))"
  by pat_completeness auto
termination
  by (relation "measure length") (auto simp: re_match_shorter)

declare findall.simps [simp del]

definition extract_filename :: "string \<Rightarrow> exn + string" where
  "extract_filename s3_path =
     (case findall s3_path of [] \<Rightarrow> Inl IndexError | filename # ms \<Rightarrow> Inr filename)"

section \<open>The three functions\<close>

definition start_athena_query ::
  "athena_client \<Rightarrow> string \<Rightarrow> string \<Rightarrow> string \<Rightarrow> string \<Rightarrow> event list
     \<Rightarrow> (exn + start_response) \<times> event list" where
  "start_athena_query c query database output_bucket output_path w =
     (let location = ''s3://'' @ output_bucket @ ''/'' @ output_path
      in (start_query_execution c query database location (submissions w),
          w @ [Start_query_execution query database location]))"

text \<open>
  The \<^verbatim>\<open>while\<close> loop of \<^verbatim>\<open>wait_for_athena_query\<close>, with its two variables
  \<^verbatim>\<open>max_execution\<close> and \<^verbatim>\<open>state\<close>. An exception of the client, a missing
  \<^verbatim>\<open>State\<close>, \<^verbatim>\<open>ResultConfiguration\<close> or \<^verbatim>\<open>OutputLocation\<close> key and the index into
  an empty match list leave the loop as the exception does.
\<close>

function wait_loop ::
  "athena_client \<Rightarrow> string \<Rightarrow> int \<Rightarrow> string \<Rightarrow> event list \<Rightarrow> (exn + py_value) \<times> event list" where
  "wait_loop c query_execution_id max_execution state w =
     (if max_execution > 0 \<and> state \<in> set [''RUNNING'', ''QUEUED''] then
        (case get_query_execution c query_execution_id (polls w) of
           Inl e \<Rightarrow> (Inl e, w @ [Get_query_execution query_execution_id])
         | Inr response \<Rightarrow>
            (case QueryExecution response of
               None \<Rightarrow>
                 wait_loop c query_execution_id (max_execution - 1) state
                   (w @ [Get_query_execution query_execution_id, Sleep 1])
             | Some qe \<Rightarrow>
                (case Status qe of
                   None \<Rightarrow>
                     wait_loop c query_execution_id (max_execution - 1) state
                       (w @ [Get_query_execution query_execution_id, Sleep 1])
                 | Some st \<Rightarrow>
                    (case State st of
                       None \<Rightarrow> (Inl (KeyError ''State''), w @ [Get_query_execution query_execution_id])
                     | Some state' \<Rightarrow>
                        if state' = ''FAILED'' then
                          (Inr PyFalse,
                           w @ [Get_query_execution query_execution_id,
                                Print_failed (max_execution - 1), Print_status st])
                        else if state' = ''SUCCEEDED'' then
                          (case ResultConfiguration qe of
                             None \<Rightarrow> (Inl (KeyError ''ResultConfiguration''),
                                      w @ [Get_query_execution query_execution_id])
                           | Some rc \<Rightarrow>
                              (case OutputLocation rc of
                                 None \<Rightarrow> (Inl (KeyError ''OutputLocation''),
                                          w @ [Get_query_execution query_execution_id])
                               | Some s3_path \<Rightarrow>
                                  (case extract_filename s3_path of
                                     Inl e \<Rightarrow> (Inl e, w @ [Get_query_execution query_execution_id])
                                   | Inr filename \<Rightarrow>
                                      (Inr (PyStr filename),
                                       w @ [Get_query_execution query_execution_id]))))
                        else
                          wait_loop c query_execution_id (max_execution - 1) state'
                            (w @ [Get_query_execution query_execution_id, Sleep 1])))))
      else (Inr PyFalse, w))"
  by pat_completeness auto
termination
  by (relation "measure (\<lambda>(c, i, max_execution, state, w). nat max_execution)") auto

declare wait_loop.simps [simp del]

definition wait_for_athena_query ::
  "athena_client \<Rightarrow> string \<Rightarrow> int \<Rightarrow> event list \<Rightarrow> (exn + py_value) \<times> event list" where
  "wait_for_athena_query c query_execution_id max_execution w =
     wait_loop c query_execution_id max_execution ''RUNNING'' w"

text \<open>The default of the parameter \<^verbatim>\<open>max_execution\<close>.\<close>

definition default_max_execution :: int where
  "default_max_execution = 100"

definition athena_to_s3 ::
  "athena_client \<Rightarrow> string \<Rightarrow> string \<Rightarrow> string \<Rightarrow> string \<Rightarrow> int \<Rightarrow> event list
     \<Rightarrow> (exn + py_value) \<times> event list" where
  "athena_to_s3 c query database output_bucket output_path max_execution w =
     (case start_athena_query c query database output_bucket output_path w of
        (Inl e, w') \<Rightarrow> (Inl e, w')
      | (Inr execution, w') \<Rightarrow>
         (case QueryExecutionId execution of
            None \<Rightarrow> (Inl (KeyError ''QueryExecutionId''), w')
          | Some execution_id \<Rightarrow> wait_for_athena_query c execution_id max_execution w'))"

section \<open>Vocabulary of the specification\<close>

text \<open>
  The words the specification uses, over the data of the code: the part of a location
  after its last slash; the \<^verbatim>\<open>Status\<close> dict and the \<^verbatim>\<open>OutputLocation\<close> of a
  response, where it has them; a response that reports a state; a response without
  the \<^verbatim>\<open>QueryExecution\<close> key or without its \<^verbatim>\<open>Status\<close> key; an answer that is not
  terminal (no exception, and no state or one of RUNNING and QUEUED); and the trace of
  \<open>k\<close> rounds of one status query and one sleep of a second.
\<close>

definition after_last_slash :: "string \<Rightarrow> string" where
  "after_last_slash s = rev (takeWhile (\<lambda>c. c \<noteq> CHR ''/'') (rev s))"

definition status_of :: "response \<Rightarrow> status option" where
  "status_of r = (case QueryExecution r of None \<Rightarrow> None | Some qe \<Rightarrow> Status qe)"

definition output_location_of :: "response \<Rightarrow> string option" where
  "output_location_of r =
     (case QueryExecution r of
        None \<Rightarrow> None
      | Some qe \<Rightarrow> (case ResultConfiguration qe of None \<Rightarrow> None | Some rc \<Rightarrow> OutputLocation rc))"

definition reports :: "response \<Rightarrow> string \<Rightarrow> bool" where
  "reports r s \<longleftrightarrow> (case status_of r of None \<Rightarrow> False | Some st \<Rightarrow> State st = Some s)"

definition lacks_status :: "response \<Rightarrow> bool" where
  "lacks_status r \<longleftrightarrow> (case QueryExecution r of None \<Rightarrow> True | Some qe \<Rightarrow> Status qe = None)"

definition pending :: "exn + response \<Rightarrow> bool" where
  "pending a \<longleftrightarrow>
     (case a of
        Inl e \<Rightarrow> False
      | Inr r \<Rightarrow> lacks_status r \<or> reports r ''RUNNING'' \<or> reports r ''QUEUED'')"

definition poll_and_sleep :: "string \<Rightarrow> nat \<Rightarrow> event list" where
  "poll_and_sleep i k = concat (replicate k [Get_query_execution i, Sleep 1])"

section \<open>Scripted clients\<close>

text \<open>
  Concrete responses and a client that answers from a script, for running the functions
  on explicit inputs: the submission always answers \<open>submitted\<close>, the \<open>k\<close>-th status
  query answers the \<open>k\<close>-th element of \<open>answers\<close> and RUNNING once the script is over.
\<close>

definition response_with_state :: "string \<Rightarrow> response" where
  "response_with_state s =
     \<lparr>QueryExecution = Some \<lparr>Status = Some \<lparr>State = Some s, StateChangeReason = None\<rparr>,
                              ResultConfiguration = None\<rparr>\<rparr>"

definition response_succeeded :: "string \<Rightarrow> response" where
  "response_succeeded s3_path =
     \<lparr>QueryExecution = Some \<lparr>Status = Some \<lparr>State = Some ''SUCCEEDED'', StateChangeReason = None\<rparr>,
                              ResultConfiguration = Some \<lparr>OutputLocation = Some s3_path\<rparr>\<rparr>\<rparr>"

definition scripted_client :: "exn + start_response \<Rightarrow> (exn + response) list \<Rightarrow> athena_client" where
  "scripted_client submitted answers =
     \<lparr>start_query_execution = (\<lambda>q d l k. submitted),
      get_query_execution =
        (\<lambda>i k. if k < length answers then answers ! k else Inr (response_with_state ''RUNNING''))\<rparr>"

section \<open>The regular expression on one line\<close>

lemma after_last_slash_Cons:
  "after_last_slash (c # cs) =
     (if CHR ''/'' \<in> set cs then after_last_slash cs else if c = CHR ''/'' then cs else c # cs)"
  by (auto simp: after_last_slash_def takeWhile_append)

lemma after_last_slash_split:
  "CHR ''/'' \<in> set s \<Longrightarrow>
     \<exists>p. s = p @ CHR ''/'' # after_last_slash s \<and> CHR ''/'' \<notin> set (after_last_slash s)"
proof (induction s)
  case Nil
  then show ?case by simp
next
  case (Cons c cs)
  show ?case
  proof (cases "CHR ''/'' \<in> set cs")
    case True
    with Cons.IH obtain p where "cs = p @ CHR ''/'' # after_last_slash cs"
      and "CHR ''/'' \<notin> set (after_last_slash cs)" by blast
    then have "c # cs = (c # p) @ CHR ''/'' # after_last_slash cs" by simp
    with True \<open>CHR ''/'' \<notin> set (after_last_slash cs)\<close> show ?thesis
      unfolding after_last_slash_Cons by (simp only: if_True) blast
  next
    case False
    with Cons.prems have "c = CHR ''/''" by simp
    with False show ?thesis
      by (simp add: after_last_slash_Cons)
  qed
qed

lemma re_match_no_slash: "CHR ''/'' \<notin> set s \<Longrightarrow> re_match s = None"
  by (induction s) auto

lemma re_match_one_line:
  "CHR ''/'' \<in> set s \<Longrightarrow> CHR 0x0A \<notin> set s \<Longrightarrow> re_match s = Some (after_last_slash s, [])"
proof (induction s)
  case Nil
  then show ?case by simp
next
  case (Cons c cs)
  from Cons.prems have d: "dot c" and nl: "CHR 0x0A \<notin> set cs"
    by (auto simp: dot_def)
  show ?case
  proof (cases "CHR ''/'' \<in> set cs")
    case True
    with Cons.IH nl have "re_match cs = Some (after_last_slash cs, [])" by simp
    with d True show ?thesis
      by (simp add: after_last_slash_Cons)
  next
    case False
    with Cons.prems have c: "c = CHR ''/''" by simp
    from nl have "takeWhile dot cs = cs" "dropWhile dot cs = []"
      by (auto simp: dot_def takeWhile_eq_all_conv)
    with False c d show ?thesis
      by (simp add: re_match_no_slash after_last_slash_Cons)
  qed
qed

lemma findall_no_slash: "CHR ''/'' \<notin> set s \<Longrightarrow> findall s = []"
proof (induction s)
  case Nil
  then show ?case by (simp add: findall.simps)
next
  case (Cons c cs)
  then have "re_match (c # cs) = None" and "findall cs = []"
    by (simp_all add: re_match_no_slash del: re_match.simps)
  then show ?case
    by (simp add: findall.simps [of "c # cs"] del: re_match.simps)
qed

lemma findall_slash: "CHR ''/'' \<in> set s \<Longrightarrow> findall s \<noteq> []"
proof (induction s)
  case Nil
  then show ?case by simp
next
  case (Cons c cs)
  show ?case
  proof (cases "re_match (c # cs)")
    case None
    then have "c \<noteq> CHR ''/''"
      by (auto split: option.splits if_splits)
    with Cons.prems have "CHR ''/'' \<in> set cs" by simp
    with Cons.IH None show ?thesis
      by (simp add: findall.simps [of "c # cs"])
  next
    case (Some m)
    then show ?thesis
      by (cases m) (simp add: findall.simps [of "c # cs"])
  qed
qed

lemma extract_filename_one_line:
  "CHR ''/'' \<in> set s \<Longrightarrow> CHR 0x0A \<notin> set s \<Longrightarrow> extract_filename s = Inr (after_last_slash s)"
  by (simp add: extract_filename_def findall.simps [of s] re_match_one_line)

lemma extract_filename_no_slash: "CHR ''/'' \<notin> set s \<Longrightarrow> extract_filename s = Inl IndexError"
  by (simp add: extract_filename_def findall_no_slash)

lemma extract_filename_slash: "CHR ''/'' \<in> set s \<Longrightarrow> \<exists>f. extract_filename s = Inr f"
  using findall_slash [of s] by (auto simp: extract_filename_def split: list.splits)

lemma after_last_slash_trailing: "after_last_slash (p @ ''/'') = []"
  by (simp add: after_last_slash_def)

section \<open>One iteration and many iterations of the loop\<close>

lemma polls_append: "polls (w @ v) = polls w + polls v"
  by (simp add: polls_def)

lemma polls_step: "polls (w @ [Get_query_execution i, Sleep t]) = Suc (polls w)"
  by (simp add: polls_def)

lemma polls_poll_and_sleep: "polls (poll_and_sleep i k) = k"
  by (induction k) (simp_all add: poll_and_sleep_def polls_def)

lemma sleeps_poll_and_sleep: "sleeps (poll_and_sleep i k) = k"
  by (induction k) (simp_all add: poll_and_sleep_def sleeps_def)

lemma poll_and_sleep_Suc:
  "poll_and_sleep i (Suc k) = [Get_query_execution i, Sleep 1] @ poll_and_sleep i k"
  by (simp add: poll_and_sleep_def)

lemma wait_loop_exhausted: "n \<le> 0 \<Longrightarrow> wait_loop c i n state w = (Inr PyFalse, w)"
  by (simp add: wait_loop.simps [of c i n state w])

lemma wait_loop_lacks_status:
  assumes "0 < n" and "state = ''RUNNING'' \<or> state = ''QUEUED''"
    and "get_query_execution c i (polls w) = Inr r" and "lacks_status r"
  shows "wait_loop c i n state w =
           wait_loop c i (n - 1) state (w @ [Get_query_execution i, Sleep 1])"
  using assms
  by (auto simp: wait_loop.simps [of c i n state w] lacks_status_def split: option.splits)

lemma wait_loop_non_terminal:
  assumes "0 < n" and "state = ''RUNNING'' \<or> state = ''QUEUED''"
    and "get_query_execution c i (polls w) = Inr r" and "reports r state'"
    and "state' \<noteq> ''FAILED''" and "state' \<noteq> ''SUCCEEDED''"
  shows "wait_loop c i n state w =
           wait_loop c i (n - 1) state' (w @ [Get_query_execution i, Sleep 1])"
  using assms
  by (auto simp: wait_loop.simps [of c i n state w] reports_def status_of_def
           split: option.splits)

lemma wait_loop_failed:
  assumes "0 < n" and "state = ''RUNNING'' \<or> state = ''QUEUED''"
    and "get_query_execution c i (polls w) = Inr r"
    and "status_of r = Some st" and "State st = Some ''FAILED''"
  shows "wait_loop c i n state w =
           (Inr PyFalse, w @ [Get_query_execution i, Print_failed (n - 1), Print_status st])"
  using assms
  by (auto simp: wait_loop.simps [of c i n state w] status_of_def split: option.splits)

lemma wait_loop_succeeded:
  assumes "0 < n" and "state = ''RUNNING'' \<or> state = ''QUEUED''"
    and "get_query_execution c i (polls w) = Inr r"
    and "reports r ''SUCCEEDED''" and "output_location_of r = Some s3_path"
  shows "wait_loop c i n state w =
           (map_sum (\<lambda>e. e) PyStr (extract_filename s3_path), w @ [Get_query_execution i])"
  using assms
  by (auto simp: wait_loop.simps [of c i n state w] reports_def status_of_def
                 output_location_of_def
           split: option.splits sum.splits)

lemma wait_loop_raises:
  assumes "0 < n" and "state = ''RUNNING'' \<or> state = ''QUEUED''"
    and "get_query_execution c i (polls w) = Inl e"
  shows "wait_loop c i n state w = (Inl e, w @ [Get_query_execution i])"
  using assms by (auto simp: wait_loop.simps [of c i n state w])

lemma wait_loop_pending_step:
  assumes "0 < n" and "state = ''RUNNING'' \<or> state = ''QUEUED''"
    and "pending (get_query_execution c i (polls w))"
  shows "\<exists>state'. (state' = ''RUNNING'' \<or> state' = ''QUEUED'') \<and>
           wait_loop c i n state w =
             wait_loop c i (n - 1) state' (w @ [Get_query_execution i, Sleep 1])"
proof -
  from assms(3) obtain r where r: "get_query_execution c i (polls w) = Inr r"
    and cases: "lacks_status r \<or> reports r ''RUNNING'' \<or> reports r ''QUEUED''"
    by (auto simp: pending_def split: sum.splits)
  from cases show ?thesis
  proof (elim disjE)
    assume "lacks_status r"
    then have "wait_loop c i n state w =
            wait_loop c i (n - 1) state (w @ [Get_query_execution i, Sleep 1])"
      by (rule wait_loop_lacks_status [OF assms(1) assms(2) r])
    with assms(2) show ?thesis by (rule_tac x = state in exI) simp
  next
    assume a: "reports r ''RUNNING''"
    have "wait_loop c i n state w =
            wait_loop c i (n - 1) ''RUNNING'' (w @ [Get_query_execution i, Sleep 1])"
      by (rule wait_loop_non_terminal [OF assms(1) assms(2) r a]) simp_all
    then show ?thesis by (rule_tac x = "''RUNNING''" in exI) simp
  next
    assume a: "reports r ''QUEUED''"
    have "wait_loop c i n state w =
            wait_loop c i (n - 1) ''QUEUED'' (w @ [Get_query_execution i, Sleep 1])"
      by (rule wait_loop_non_terminal [OF assms(1) assms(2) r a]) simp_all
    then show ?thesis by (rule_tac x = "''QUEUED''" in exI) simp
  qed
qed

lemma wait_loop_pending:
  assumes "\<forall>j<k. pending (get_query_execution c i (polls w + j))"
    and "state = ''RUNNING'' \<or> state = ''QUEUED''" and "int k \<le> n"
  shows "\<exists>state'. (state' = ''RUNNING'' \<or> state' = ''QUEUED'') \<and>
           wait_loop c i n state w = wait_loop c i (n - int k) state' (w @ poll_and_sleep i k)"
  using assms
proof (induction k arbitrary: n state w)
  case 0
  then show ?case
    by (rule_tac x = state in exI) (simp add: poll_and_sleep_def)
next
  case (Suc k)
  let ?w = "w @ [Get_query_execution i, Sleep 1]"
  from Suc.prems(3) have n: "0 < n" by simp
  from Suc.prems(1) [rule_format, of 0]
  have p0: "pending (get_query_execution c i (polls w))" by simp
  from wait_loop_pending_step [OF n Suc.prems(2) p0]
  obtain s1 where s1: "s1 = ''RUNNING'' \<or> s1 = ''QUEUED''"
    and step: "wait_loop c i n state w = wait_loop c i (n - 1) s1 ?w"
    by (elim exE conjE)
  have rest: "\<forall>j<k. pending (get_query_execution c i (polls ?w + j))"
  proof (intro allI impI)
    fix j assume "j < k"
    then have "Suc j < Suc k" by simp
    with Suc.prems(1) have "pending (get_query_execution c i (polls w + Suc j))"
      by blast
    then show "pending (get_query_execution c i (polls ?w + j))"
      by (simp add: polls_step)
  qed
  from Suc.prems(3) have le: "int k \<le> n - 1" by simp
  from Suc.IH [OF rest s1 le]
  obtain s2 where s2: "s2 = ''RUNNING'' \<or> s2 = ''QUEUED''"
    and run: "wait_loop c i (n - 1) s1 ?w = wait_loop c i (n - 1 - int k) s2 (?w @ poll_and_sleep i k)"
    by (elim exE conjE)
  have eq: "n - 1 - int k = n - int (Suc k)" by simp
  have "wait_loop c i n state w = wait_loop c i (n - int (Suc k)) s2 (w @ poll_and_sleep i (Suc k))"
    using step run unfolding eq poll_and_sleep_Suc by simp
  with s2 show ?case
    by (rule_tac x = s2 in exI) simp
qed

lemma wait_loop_stops:
  "\<not> (0 < n \<and> (state = ''RUNNING'' \<or> state = ''QUEUED'')) \<Longrightarrow>
     wait_loop c i n state w = (Inr PyFalse, w)"
  by (auto simp: wait_loop.simps [of c i n state w])

lemma wait_loop_unfold_cases:
  assumes "0 < n" and "state = ''RUNNING'' \<or> state = ''QUEUED''"
  shows "(\<exists>x v. wait_loop c i n state w = (x, w @ Get_query_execution i # v) \<and> filter is_start v = [])
       \<or> (\<exists>state'. wait_loop c i n state w =
             wait_loop c i (n - 1) state' (w @ [Get_query_execution i, Sleep 1]))"
  using assms
  by (simp add: wait_loop.simps [of c i n state w] split: sum.splits option.splits) blast

lemma wait_loop_trace:
  "\<exists>v. snd (wait_loop c i n state w) = w @ v \<and> filter is_start v = []"
proof (induction "nat n" arbitrary: n state w)
  case 0
  then have "wait_loop c i n state w = (Inr PyFalse, w)"
    by (intro wait_loop_stops) simp
  then show ?case by simp
next
  case (Suc k)
  show ?case
  proof (cases "state = ''RUNNING'' \<or> state = ''QUEUED''")
    case False
    then have "wait_loop c i n state w = (Inr PyFalse, w)"
      by (intro wait_loop_stops) simp
    then show ?thesis by simp
  next
    case True
    from Suc.hyps(2) have n: "0 < n" by simp
    from wait_loop_unfold_cases [OF n True, of c i w] show ?thesis
    proof (elim disjE exE conjE)
      fix x v
      assume "wait_loop c i n state w = (x, w @ Get_query_execution i # v)"
        and "filter is_start v = []"
      then show ?thesis by simp
    next
      fix state'
      let ?w = "w @ [Get_query_execution i, Sleep 1]"
      assume step: "wait_loop c i n state w = wait_loop c i (n - 1) state' ?w"
      from Suc.hyps(2) have "k = nat (n - 1)" by simp
      from Suc.hyps(1) [OF this, of state' ?w]
      obtain v where "snd (wait_loop c i (n - 1) state' ?w) = ?w @ v" and "filter is_start v = []"
        by (elim exE conjE)
      with step have "snd (wait_loop c i n state w) = w @ ([Get_query_execution i, Sleep 1] @ v)
          \<and> filter is_start ([Get_query_execution i, Sleep 1] @ v) = []"
        by simp
      then show ?thesis by (rule exI)
    qed
  qed
qed

lemma wait_loop_submissions: "submissions (snd (wait_loop c i n state w)) = submissions w"
proof -
  from wait_loop_trace [of c i n state w]
  obtain v where "snd (wait_loop c i n state w) = w @ v" and "filter is_start v = []"
    by (elim exE conjE)
  then show ?thesis by (simp add: submissions_def)
qed

lemma reports_response_with_state: "reports (response_with_state s) s' \<longleftrightarrow> s = s'"
  by (simp add: reports_def status_of_def response_with_state_def)

lemma reports_response_succeeded: "reports (response_succeeded l) s' \<longleftrightarrow> s' = ''SUCCEEDED''"
  by (auto simp: reports_def status_of_def response_succeeded_def)

lemma output_location_of_response_succeeded: "output_location_of (response_succeeded l) = Some l"
  by (simp add: output_location_of_def response_succeeded_def)

lemma pending_response_with_state:
  "pending (Inr (response_with_state s)) \<longleftrightarrow> s = ''RUNNING'' \<or> s = ''QUEUED''"
  by (simp add: pending_def lacks_status_def reports_response_with_state)
     (simp add: response_with_state_def)

lemma polls_start: "polls (w @ [Start_query_execution q d l]) = polls w"
  by (simp add: polls_def)

lemma wait_succeeds_after:
  assumes "int k < n"
    and "\<forall>j<k. pending (get_query_execution c i (polls w + j))"
    and "get_query_execution c i (polls w + k) = Inr r"
    and "reports r ''SUCCEEDED''" and "output_location_of r = Some s3_path"
  shows "wait_for_athena_query c i n w =
           (map_sum (\<lambda>e. e) PyStr (extract_filename s3_path),
            w @ poll_and_sleep i k @ [Get_query_execution i])"
proof -
  from assms(1) have le: "int k \<le> n" and pos: "0 < n - int k" by simp_all
  from wait_loop_pending [OF assms(2) _ le, of "''RUNNING''"]
  obtain state' where st: "state' = ''RUNNING'' \<or> state' = ''QUEUED''"
    and run: "wait_loop c i n ''RUNNING'' w =
                wait_loop c i (n - int k) state' (w @ poll_and_sleep i k)"
    by auto
  have "get_query_execution c i (polls (w @ poll_and_sleep i k)) = Inr r"
    using assms(3) by (simp add: polls_append polls_poll_and_sleep)
  from wait_loop_succeeded [OF pos st this assms(4) assms(5)] run
  show ?thesis by (simp add: wait_for_athena_query_def)
qed

lemma wait_fails_after:
  assumes "int k < n"
    and "\<forall>j<k. pending (get_query_execution c i (polls w + j))"
    and "get_query_execution c i (polls w + k) = Inr r"
    and "reports r ''FAILED''"
  shows "fst (wait_for_athena_query c i n w) = Inr PyFalse"
proof -
  from assms(1) have le: "int k \<le> n" and pos: "0 < n - int k" by simp_all
  from wait_loop_pending [OF assms(2) _ le, of "''RUNNING''"]
  obtain state' where st: "state' = ''RUNNING'' \<or> state' = ''QUEUED''"
    and run: "wait_loop c i n ''RUNNING'' w =
                wait_loop c i (n - int k) state' (w @ poll_and_sleep i k)"
    by auto
  have g: "get_query_execution c i (polls (w @ poll_and_sleep i k)) = Inr r"
    using assms(3) by (simp add: polls_append polls_poll_and_sleep)
  from assms(4) obtain st where "status_of r = Some st" and "State st = Some ''FAILED''"
    by (auto simp: reports_def split: option.splits)
  from wait_loop_failed [OF pos st g this] run
  show ?thesis by (simp add: wait_for_athena_query_def)
qed

text \<open>
  What the success branch returns, after any number of non-terminal answers: on a
  location of one line with a slash the part after the last slash (the empty string
  when the location ends in the slash), on a location without a slash the
  \<^verbatim>\<open>IndexError\<close> of the index into the empty match list, and on every location
  with a slash some string.
\<close>

lemma wait_succeeds_one_line:
  assumes "int k < n"
    and "\<forall>j<k. pending (get_query_execution c i (polls w + j))"
    and "get_query_execution c i (polls w + k) = Inr r"
    and "reports r ''SUCCEEDED''" and "output_location_of r = Some s3_path"
    and "CHR ''/'' \<in> set s3_path" and "CHR 0x0A \<notin> set s3_path"
  shows "wait_for_athena_query c i n w =
           (Inr (PyStr (after_last_slash s3_path)),
            w @ poll_and_sleep i k @ [Get_query_execution i])"
  using wait_succeeds_after [OF assms(1) assms(2) assms(3) assms(4) assms(5)] assms(6,7)
  by (simp add: extract_filename_one_line)

lemma wait_succeeds_trailing_slash:
  assumes "int k < n"
    and "\<forall>j<k. pending (get_query_execution c i (polls w + j))"
    and "get_query_execution c i (polls w + k) = Inr r"
    and "reports r ''SUCCEEDED''" and "output_location_of r = Some (p @ ''/'')"
    and "CHR 0x0A \<notin> set p"
  shows "wait_for_athena_query c i n w =
           (Inr (PyStr []), w @ poll_and_sleep i k @ [Get_query_execution i])"
proof -
  have "CHR ''/'' \<in> set (p @ ''/'')" and "CHR 0x0A \<notin> set (p @ ''/'')"
    using assms(6) by simp_all
  from wait_succeeds_one_line [OF assms(1) assms(2) assms(3) assms(4) assms(5) this]
  show ?thesis by (simp only: after_last_slash_trailing)
qed

lemma wait_succeeds_no_slash:
  assumes "int k < n"
    and "\<forall>j<k. pending (get_query_execution c i (polls w + j))"
    and "get_query_execution c i (polls w + k) = Inr r"
    and "reports r ''SUCCEEDED''" and "output_location_of r = Some s3_path"
    and "CHR ''/'' \<notin> set s3_path"
  shows "wait_for_athena_query c i n w =
           (Inl IndexError, w @ poll_and_sleep i k @ [Get_query_execution i])"
  using wait_succeeds_after [OF assms(1) assms(2) assms(3) assms(4) assms(5)] assms(6)
  by (simp add: extract_filename_no_slash)

lemma wait_succeeds_slash:
  assumes "int k < n"
    and "\<forall>j<k. pending (get_query_execution c i (polls w + j))"
    and "get_query_execution c i (polls w + k) = Inr r"
    and "reports r ''SUCCEEDED''" and "output_location_of r = Some s3_path"
    and "CHR ''/'' \<in> set s3_path"
  shows "\<exists>filename. wait_for_athena_query c i n w =
           (Inr (PyStr filename), w @ poll_and_sleep i k @ [Get_query_execution i])"
proof -
  from extract_filename_slash [OF assms(6)] obtain f where "extract_filename s3_path = Inr f"
    by (elim exE)
  with wait_succeeds_after [OF assms(1) assms(2) assms(3) assms(4) assms(5)]
  have "wait_for_athena_query c i n w =
           (Inr (PyStr f), w @ poll_and_sleep i k @ [Get_query_execution i])"
    by simp
  then show ?thesis by (rule exI [of _ f])
qed

section \<open>The properties of the specification\<close>

text \<open>
  Claim C10. For every attempt budget less than or equal to 0, the poller performs no
  status query and no sleep and returns \<^verbatim>\<open>False\<close> at once: the trace is left as it
  was.
\<close>

theorem poller_no_budget:
  "max_execution \<le> 0 \<Longrightarrow> wait_for_athena_query c i max_execution w = (Inr PyFalse, w)"
  by (simp add: wait_for_athena_query_def wait_loop_exhausted)

theorem poller_no_budget_witness:
  "wait_for_athena_query (scripted_client (Inl (ClientError ''unused'')) []) ''id'' (- 5) []
     = (Inr PyFalse, [])
   \<and> polls [] = 0 \<and> sleeps [] = 0"
  using poller_no_budget [of "- 5" "scripted_client (Inl (ClientError ''unused'')) []" "''id''" "[]"]
  by (simp add: polls_def sleeps_def)

text \<open>
  Claim C3. For every positive attempt budget, if the first status response is FAILED,
  the poller returns \<^verbatim>\<open>False\<close> after exactly one status query. The budget has been
  decremented by exactly one (the first \<^verbatim>\<open>print\<close> shows it), and no further query and
  no sleep follows.
\<close>

theorem poller_failed_first:
  assumes "0 < max_execution"
    and "get_query_execution c i (polls w) = Inr r"
    and "status_of r = Some st" and "State st = Some ''FAILED''"
  shows "wait_for_athena_query c i max_execution w =
           (Inr PyFalse,
            w @ [Get_query_execution i, Print_failed (max_execution - 1), Print_status st])
         \<and> polls (snd (wait_for_athena_query c i max_execution w)) = polls w + 1
         \<and> sleeps (snd (wait_for_athena_query c i max_execution w)) = sleeps w"
proof -
  have "wait_loop c i max_execution ''RUNNING'' w =
          (Inr PyFalse,
           w @ [Get_query_execution i, Print_failed (max_execution - 1), Print_status st])"
    using assms by (intro wait_loop_failed) simp_all
  then show ?thesis
    by (simp add: wait_for_athena_query_def polls_def sleeps_def)
qed

theorem poller_failed_first_witness:
  "wait_for_athena_query
     (scripted_client (Inl (ClientError ''unused'')) [Inr (response_with_state ''FAILED'')])
     ''id'' 7 []
   = (Inr PyFalse,
      [Get_query_execution ''id'', Print_failed 6,
       Print_status \<lparr>State = Some ''FAILED'', StateChangeReason = None\<rparr>])"
  using poller_failed_first
    [where max_execution = 7 and i = "''id''" and w = "[]"
       and c = "scripted_client (Inl (ClientError ''unused'')) [Inr (response_with_state ''FAILED'')]"
       and r = "response_with_state ''FAILED''"
       and st = "\<lparr>State = Some ''FAILED'', StateChangeReason = None\<rparr>"]
  by (simp add: scripted_client_def response_with_state_def status_of_def polls_def)

text \<open>
  Claim C4. For every positive attempt budget \<open>N\<close>, if none of the first \<open>N\<close> answers is
  terminal, the poller performs exactly \<open>N\<close> status queries, each followed by a sleep of
  one second, and then returns \<^verbatim>\<open>False\<close>. The run with budget 3 follows
  the theorem.
\<close>

theorem poller_timeout:
  assumes "0 < max_execution"
    and "\<forall>j < nat max_execution. pending (get_query_execution c i (polls w + j))"
  shows "wait_for_athena_query c i max_execution w =
           (Inr PyFalse, w @ poll_and_sleep i (nat max_execution))
         \<and> polls (snd (wait_for_athena_query c i max_execution w)) = polls w + nat max_execution
         \<and> sleeps (snd (wait_for_athena_query c i max_execution w)) = sleeps w + nat max_execution"
proof -
  have "int (nat max_execution) \<le> max_execution" using assms(1) by simp
  from wait_loop_pending [OF assms(2) _ this, of "''RUNNING''"]
  obtain state' where
    "wait_loop c i max_execution ''RUNNING'' w =
       wait_loop c i (max_execution - int (nat max_execution)) state'
         (w @ poll_and_sleep i (nat max_execution))"
    by auto
  moreover have "max_execution - int (nat max_execution) \<le> 0" using assms(1) by simp
  ultimately have "wait_loop c i max_execution ''RUNNING'' w =
      (Inr PyFalse, w @ poll_and_sleep i (nat max_execution))"
    by (simp add: wait_loop_exhausted)
  then show ?thesis
    using polls_poll_and_sleep [of i "nat max_execution"]
      sleeps_poll_and_sleep [of i "nat max_execution"]
    by (simp add: wait_for_athena_query_def polls_def sleeps_def)
qed

theorem poller_timeout_witness:
  "wait_for_athena_query
     (scripted_client (Inl (ClientError ''unused''))
        [Inr (response_with_state ''QUEUED''), Inr (response_with_state ''RUNNING'')])
     ''id'' 3 []
   = (Inr PyFalse,
      [Get_query_execution ''id'', Sleep 1, Get_query_execution ''id'', Sleep 1,
       Get_query_execution ''id'', Sleep 1])
   \<and> polls [Get_query_execution ''id'', Sleep 1, Get_query_execution ''id'', Sleep 1,
       Get_query_execution ''id'', Sleep 1] = 3"
proof -
  let ?c = "scripted_client (Inl (ClientError ''unused''))
        [Inr (response_with_state ''QUEUED''), Inr (response_with_state ''RUNNING'')]"
  have "\<forall>j < nat 3. pending (get_query_execution ?c ''id'' (polls [] + j))"
    by (simp add: scripted_client_def pending_response_with_state nth_Cons split: nat.splits)
  from poller_timeout [where max_execution = 3 and c = ?c and i = "''id''" and w = "[]", OF _ this]
  show ?thesis
    by (simp add: poll_and_sleep_def polls_def numeral_3_eq_3)
qed

text \<open>
  Claim C2. A run of the poller with the default budget 100 whose successive status
  responses are RUNNING, RUNNING and SUCCEEDED with the output location
  \<^verbatim>\<open>s3://bucket/path/result.csv\<close> returns \<^verbatim>\<open>result.csv\<close> and performs exactly 3 status
  queries (with one sleep after each of the first two).
\<close>

theorem poller_running_running_succeeded:
  assumes "get_query_execution c i 0 = Inr r0" and "reports r0 ''RUNNING''"
    and "get_query_execution c i 1 = Inr r1" and "reports r1 ''RUNNING''"
    and "get_query_execution c i 2 = Inr r2" and "reports r2 ''SUCCEEDED''"
    and "output_location_of r2 = Some ''s3://bucket/path/result.csv''"
  shows "wait_for_athena_query c i default_max_execution [] =
           (Inr (PyStr ''result.csv''),
            [Get_query_execution i, Sleep 1, Get_query_execution i, Sleep 1,
             Get_query_execution i])
         \<and> polls (snd (wait_for_athena_query c i default_max_execution [])) = 3"
proof -
  let ?w1 = "[Get_query_execution i, Sleep 1]"
  let ?w2 = "[Get_query_execution i, Sleep 1, Get_query_execution i, Sleep 1]"
  have p0: "get_query_execution c i (polls []) = Inr r0"
    using assms(1) by (simp add: polls_def)
  have p1: "get_query_execution c i (polls ?w1) = Inr r1"
    using assms(3) by (simp add: polls_def)
  have p2: "get_query_execution c i (polls ?w2) = Inr r2"
    using assms(5) by (simp add: polls_def numeral_2_eq_2)
  have "wait_loop c i 100 ''RUNNING'' [] = wait_loop c i (100 - 1) ''RUNNING'' ([] @ ?w1)"
    by (rule wait_loop_non_terminal [OF _ _ p0 assms(2)]) simp_all
  also have "\<dots> = wait_loop c i 99 ''RUNNING'' ?w1" by simp
  also have "\<dots> = wait_loop c i (99 - 1) ''RUNNING'' (?w1 @ ?w1)"
    by (rule wait_loop_non_terminal [OF _ _ p1 assms(4)]) simp_all
  also have "\<dots> = wait_loop c i 98 ''RUNNING'' ?w2" by simp
  also have "\<dots> = (map_sum (\<lambda>e. e) PyStr (extract_filename ''s3://bucket/path/result.csv''),
                     ?w2 @ [Get_query_execution i])"
    by (rule wait_loop_succeeded [OF _ _ p2 assms(6) assms(7)]) simp_all
  also have "extract_filename ''s3://bucket/path/result.csv'' = Inr ''result.csv''"
    by (simp add: extract_filename_one_line after_last_slash_def)
  finally show ?thesis
    by (simp add: wait_for_athena_query_def default_max_execution_def polls_def)
qed

theorem poller_running_running_succeeded_witness:
  "fst (wait_for_athena_query
     (scripted_client (Inl (ClientError ''unused''))
        [Inr (response_with_state ''RUNNING''), Inr (response_with_state ''RUNNING''),
         Inr (response_succeeded ''s3://bucket/path/result.csv'')])
     ''id'' default_max_execution []) = Inr (PyStr ''result.csv'')"
  using poller_running_running_succeeded
    [where i = "''id''"
       and c = "scripted_client (Inl (ClientError ''unused''))
        [Inr (response_with_state ''RUNNING''), Inr (response_with_state ''RUNNING''),
         Inr (response_succeeded ''s3://bucket/path/result.csv'')]"
       and ?r0.0 = "response_with_state ''RUNNING''"
       and ?r1.0 = "response_with_state ''RUNNING''"
       and ?r2.0 = "response_succeeded ''s3://bucket/path/result.csv''"]
  by (simp add: scripted_client_def reports_response_with_state reports_response_succeeded
        output_location_of_response_succeeded)

text \<open>
  Claim C1. For every output location with at least one slash, the file name the
  poller returns on SUCCEEDED should be the part of the location after its last slash.
  On a location of one line it is (\<open>wait_succeeds_one_line\<close>). On a location that
  holds a newline behind a slash it is not: the dot of the pattern does not match the
  newline, so the match ends there. For the location \<^verbatim>\<open>s3://bucket/res\<close>, a newline,
  \<^verbatim>\<open>ult.csv\<close>, the part after the last slash is \<^verbatim>\<open>res\<close>, the newline and
  \<^verbatim>\<open>ult.csv\<close>, and the poller returns \<^verbatim>\<open>res\<close>, both when SUCCEEDED is the first
  answer and when it follows QUEUED and RUNNING.
\<close>

theorem poller_filename_stops_at_newline:
  "CHR ''/'' \<in> set (''s3://bucket/res'' @ [CHR 0x0A] @ ''ult.csv'')
   \<and> after_last_slash (''s3://bucket/res'' @ [CHR 0x0A] @ ''ult.csv'')
       = ''res'' @ [CHR 0x0A] @ ''ult.csv''
   \<and> wait_for_athena_query
       (scripted_client (Inl (ClientError ''unused''))
          [Inr (response_succeeded (''s3://bucket/res'' @ [CHR 0x0A] @ ''ult.csv''))])
       ''id'' 100 []
       = (Inr (PyStr ''res''), [Get_query_execution ''id''])
   \<and> wait_for_athena_query
       (scripted_client (Inl (ClientError ''unused''))
          [Inr (response_with_state ''QUEUED''), Inr (response_with_state ''RUNNING''),
           Inr (response_succeeded (''s3://bucket/res'' @ [CHR 0x0A] @ ''ult.csv''))])
       ''id'' 100 []
       = (Inr (PyStr ''res''),
          [Get_query_execution ''id'', Sleep 1, Get_query_execution ''id'', Sleep 1,
           Get_query_execution ''id''])
   \<and> PyStr ''res'' \<noteq> PyStr (''res'' @ [CHR 0x0A] @ ''ult.csv'')"
  by (simp add: wait_for_athena_query_def wait_loop.simps scripted_client_def
        response_succeeded_def response_with_state_def polls_def extract_filename_def
        findall.simps dot_def after_last_slash_def)

text \<open>
  Claim C5. For every query, database, bucket, path and budget,
  \<^verbatim>\<open>athena_to_s3\<close> is the submitter followed by the poller: when the submission
  answers with an execution identifier, it has submitted exactly once, it polls with
  that identifier and the given budget from the trace the submitter left, and it
  returns what the poller returns. When the identifier is \<^verbatim>\<open>abc123\<close> and the statuses
  are any number of non-terminal answers (fewer than the budget) and then SUCCEEDED with
  the location \<^verbatim>\<open>s3://out/x.csv\<close>, the result is \<^verbatim>\<open>x.csv\<close>.
\<close>

theorem orchestrator_composes:
  assumes "start_query_execution c query database (''s3://'' @ output_bucket @ ''/'' @ output_path)
             (submissions w) = Inr execution"
    and "QueryExecutionId execution = Some execution_id"
  shows "fst (start_athena_query c query database output_bucket output_path w) = Inr execution
       \<and> athena_to_s3 c query database output_bucket output_path max_execution w =
           wait_for_athena_query c execution_id max_execution
             (snd (start_athena_query c query database output_bucket output_path w))
       \<and> snd (start_athena_query c query database output_bucket output_path w) =
           w @ [Start_query_execution query database (''s3://'' @ output_bucket @ ''/'' @ output_path)]
       \<and> submissions (snd (athena_to_s3 c query database output_bucket output_path max_execution w))
           = submissions w + 1
       \<and> (execution_id = ''abc123'' \<and> int k < max_execution
            \<and> (\<forall>j<k. pending (get_query_execution c execution_id (polls w + j)))
            \<and> get_query_execution c execution_id (polls w + k) = Inr r
            \<and> reports r ''SUCCEEDED'' \<and> output_location_of r = Some ''s3://out/x.csv''
          \<longrightarrow> fst (athena_to_s3 c query database output_bucket output_path max_execution w)
                = Inr (PyStr ''x.csv''))"
proof -
  let ?l = "''s3://'' @ output_bucket @ ''/'' @ output_path"
  let ?w = "w @ [Start_query_execution query database ?l]"
  have s: "start_athena_query c query database output_bucket output_path w = (Inr execution, ?w)"
    using assms(1) by (simp add: start_athena_query_def)
  have a: "athena_to_s3 c query database output_bucket output_path max_execution w =
             wait_for_athena_query c execution_id max_execution ?w"
    using assms(2) by (simp add: athena_to_s3_def s)
  have n: "submissions (snd (wait_for_athena_query c execution_id max_execution ?w))
             = submissions w + 1"
    by (simp add: wait_for_athena_query_def wait_loop_submissions) (simp add: submissions_def)
  have x: "extract_filename ''s3://out/x.csv'' = Inr ''x.csv''"
    by (simp add: extract_filename_one_line after_last_slash_def)
  have e: "fst (wait_for_athena_query c execution_id max_execution ?w) = Inr (PyStr ''x.csv'')"
    if "int k < max_execution"
      and "\<forall>j<k. pending (get_query_execution c execution_id (polls w + j))"
      and "get_query_execution c execution_id (polls w + k) = Inr r"
      and "reports r ''SUCCEEDED''" and "output_location_of r = Some ''s3://out/x.csv''"
  proof -
    from that(2) have p: "\<forall>j<k. pending (get_query_execution c execution_id (polls ?w + j))"
      by (simp add: polls_start)
    from that(3) have g: "get_query_execution c execution_id (polls ?w + k) = Inr r"
      by (simp add: polls_start)
    from wait_succeeds_after [OF that(1) p g that(4) that(5)] show ?thesis
      by (simp add: x)
  qed
  have imp: "execution_id = ''abc123'' \<and> int k < max_execution
            \<and> (\<forall>j<k. pending (get_query_execution c execution_id (polls w + j)))
            \<and> get_query_execution c execution_id (polls w + k) = Inr r
            \<and> reports r ''SUCCEEDED'' \<and> output_location_of r = Some ''s3://out/x.csv''
          \<longrightarrow> fst (athena_to_s3 c query database output_bucket output_path max_execution w)
                = Inr (PyStr ''x.csv'')"
    unfolding a using e by blast
  show ?thesis
  proof (intro conjI)
    show "fst (start_athena_query c query database output_bucket output_path w) = Inr execution"
      by (simp add: s)
    show "athena_to_s3 c query database output_bucket output_path max_execution w =
           wait_for_athena_query c execution_id max_execution
             (snd (start_athena_query c query database output_bucket output_path w))"
      by (simp add: s a)
    show "snd (start_athena_query c query database output_bucket output_path w) = ?w"
      by (simp add: s)
    show "submissions (snd (athena_to_s3 c query database output_bucket output_path max_execution w))
           = submissions w + 1"
      by (simp only: a n)
    show "execution_id = ''abc123'' \<and> int k < max_execution
            \<and> (\<forall>j<k. pending (get_query_execution c execution_id (polls w + j)))
            \<and> get_query_execution c execution_id (polls w + k) = Inr r
            \<and> reports r ''SUCCEEDED'' \<and> output_location_of r = Some ''s3://out/x.csv''
          \<longrightarrow> fst (athena_to_s3 c query database output_bucket output_path max_execution w)
                = Inr (PyStr ''x.csv'')"
      by (rule imp)
  qed
qed

theorem orchestrator_composes_witness:
  "athena_to_s3
     (scripted_client (Inr \<lparr>QueryExecutionId = Some ''abc123''\<rparr>)
        [Inr (response_with_state ''QUEUED''), Inr (response_with_state ''RUNNING''),
         Inr (response_succeeded ''s3://out/x.csv'')])
     ''SELECT 1'' ''db'' ''out'' ''q'' 100 []
   = wait_for_athena_query
     (scripted_client (Inr \<lparr>QueryExecutionId = Some ''abc123''\<rparr>)
        [Inr (response_with_state ''QUEUED''), Inr (response_with_state ''RUNNING''),
         Inr (response_succeeded ''s3://out/x.csv'')])
     ''abc123'' 100 [Start_query_execution ''SELECT 1'' ''db'' ''s3://out/q'']
   \<and> fst (athena_to_s3
     (scripted_client (Inr \<lparr>QueryExecutionId = Some ''abc123''\<rparr>)
        [Inr (response_with_state ''QUEUED''), Inr (response_with_state ''RUNNING''),
         Inr (response_succeeded ''s3://out/x.csv'')])
     ''SELECT 1'' ''db'' ''out'' ''q'' 100 []) = Inr (PyStr ''x.csv'')"
proof -
  let ?c = "scripted_client (Inr \<lparr>QueryExecutionId = Some ''abc123''\<rparr>)
        [Inr (response_with_state ''QUEUED''), Inr (response_with_state ''RUNNING''),
         Inr (response_succeeded ''s3://out/x.csv'')]"
  have p: "\<forall>j<2. pending (get_query_execution ?c ''abc123'' (polls [] + j))"
    by (auto simp: scripted_client_def polls_def pending_response_with_state less_Suc_eq
          numeral_2_eq_2)
  have g: "get_query_execution ?c ''abc123'' (polls [] + 2) = Inr (response_succeeded ''s3://out/x.csv'')"
    by (simp add: scripted_client_def polls_def)
  have s: "start_query_execution ?c ''SELECT 1'' ''db'' (''s3://'' @ ''out'' @ ''/'' @ ''q'')
             (submissions []) = Inr \<lparr>QueryExecutionId = Some ''abc123''\<rparr>"
    by (simp add: scripted_client_def)
  have i: "QueryExecutionId \<lparr>QueryExecutionId = Some ''abc123''\<rparr> = Some ''abc123''"
    by simp
  note t = orchestrator_composes
    [where c = ?c and w = "[]" and execution_id = "''abc123''" and k = 2
       and max_execution = 100 and r = "response_succeeded ''s3://out/x.csv''", OF s i]
  note t2 = t [THEN conjunct2, THEN conjunct1]
  note t3 = t [THEN conjunct2, THEN conjunct2, THEN conjunct1]
  note t5 = t [THEN conjunct2, THEN conjunct2, THEN conjunct2, THEN conjunct2]
  have first: "athena_to_s3 ?c ''SELECT 1'' ''db'' ''out'' ''q'' 100 []
     = wait_for_athena_query ?c ''abc123'' 100
         [Start_query_execution ''SELECT 1'' ''db'' ''s3://out/q'']"
    unfolding t2 t3 by simp
  have second: "fst (athena_to_s3 ?c ''SELECT 1'' ''db'' ''out'' ''q'' 100 [])
     = Inr (PyStr ''x.csv'')"
    using t5 p g
    by (simp add: reports_response_succeeded output_location_of_response_succeeded)
  from first second show ?thesis by (rule conjI)
qed

text \<open>
  Claim C6. What the poller returns on timeout (the budget is used up and no answer
  was terminal) is what it returns on a FAILED status (here after any number of
  non-terminal answers): the same value \<^verbatim>\<open>False\<close>, so the caller cannot tell the
  two apart.
\<close>

theorem timeout_same_as_failed:
  assumes "0 < n1"
    and "\<forall>j < nat n1. pending (get_query_execution c1 i1 (polls w1 + j))"
    and "int k < n2"
    and "\<forall>j<k. pending (get_query_execution c2 i2 (polls w2 + j))"
    and "get_query_execution c2 i2 (polls w2 + k) = Inr r"
    and "reports r ''FAILED''"
  shows "fst (wait_for_athena_query c1 i1 n1 w1) = Inr PyFalse
       \<and> fst (wait_for_athena_query c2 i2 n2 w2) = Inr PyFalse
       \<and> fst (wait_for_athena_query c1 i1 n1 w1) = fst (wait_for_athena_query c2 i2 n2 w2)"
proof -
  have le: "int (nat n1) \<le> n1" using assms(1) by simp
  from wait_loop_pending [OF assms(2) _ le, of "''RUNNING''"]
  obtain state' where
    "wait_loop c1 i1 n1 ''RUNNING'' w1 =
       wait_loop c1 i1 (n1 - int (nat n1)) state' (w1 @ poll_and_sleep i1 (nat n1))"
    by auto
  moreover have "n1 - int (nat n1) \<le> 0" using assms(1) by simp
  ultimately have t: "fst (wait_for_athena_query c1 i1 n1 w1) = Inr PyFalse"
    by (simp add: wait_for_athena_query_def wait_loop_exhausted)
  have f: "fst (wait_for_athena_query c2 i2 n2 w2) = Inr PyFalse"
    by (rule wait_fails_after [OF assms(3) assms(4) assms(5) assms(6)])
  from t f show ?thesis by simp
qed

theorem timeout_same_as_failed_witness:
  "fst (wait_for_athena_query
          (scripted_client (Inl (ClientError ''unused'')) []) ''a'' 4 [])
   = fst (wait_for_athena_query
          (scripted_client (Inl (ClientError ''unused''))
             [Inr (response_with_state ''QUEUED''), Inr (response_with_state ''FAILED'')])
          ''b'' 4 [])
   \<and> fst (wait_for_athena_query
          (scripted_client (Inl (ClientError ''unused'')) []) ''a'' 4 []) = Inr PyFalse"
proof -
  let ?c1 = "scripted_client (Inl (ClientError ''unused'')) []"
  let ?c2 = "scripted_client (Inl (ClientError ''unused''))
             [Inr (response_with_state ''QUEUED''), Inr (response_with_state ''FAILED'')]"
  have p1: "\<forall>j < nat 4. pending (get_query_execution ?c1 ''a'' (polls [] + j))"
    by (simp add: scripted_client_def pending_response_with_state)
  have p2: "\<forall>j<1. pending (get_query_execution ?c2 ''b'' (polls [] + j))"
    by (simp add: scripted_client_def polls_def pending_response_with_state)
  have g: "get_query_execution ?c2 ''b'' (polls [] + 1) = Inr (response_with_state ''FAILED'')"
    by (simp add: scripted_client_def polls_def)
  have r: "reports (response_with_state ''FAILED'') ''FAILED''"
    by (simp add: reports_response_with_state)
  have n1: "(0::int) < 4" and n2: "int 1 < 4" by simp_all
  note t = timeout_same_as_failed [OF n1 p1 n2 p2 g r]
  from t [THEN conjunct2, THEN conjunct2] t [THEN conjunct1]
  show ?thesis by (rule conjI)
qed

text \<open>
  Claim C7. An exception of the remote submission call reaches the caller of
  \<^verbatim>\<open>start_athena_query\<close> and the caller of \<^verbatim>\<open>athena_to_s3\<close> as it is: the
  submission is attempted exactly once (one more submission in the trace and nothing
  else, so no retry and no status query), and the result is the exception, not
  \<^verbatim>\<open>False\<close>.
\<close>

theorem submission_error_propagates:
  assumes "start_query_execution c query database (''s3://'' @ output_bucket @ ''/'' @ output_path)
             (submissions w) = Inl e"
  shows "start_athena_query c query database output_bucket output_path w =
           (Inl e, w @ [Start_query_execution query database
                          (''s3://'' @ output_bucket @ ''/'' @ output_path)])
       \<and> athena_to_s3 c query database output_bucket output_path max_execution w =
           (Inl e, w @ [Start_query_execution query database
                          (''s3://'' @ output_bucket @ ''/'' @ output_path)])
       \<and> submissions (snd (athena_to_s3 c query database output_bucket output_path max_execution w))
           = submissions w + 1
       \<and> polls (snd (athena_to_s3 c query database output_bucket output_path max_execution w))
           = polls w"
proof -
  have s: "start_athena_query c query database output_bucket output_path w =
           (Inl e, w @ [Start_query_execution query database
                          (''s3://'' @ output_bucket @ ''/'' @ output_path)])"
    using assms by (simp add: start_athena_query_def)
  then have a: "athena_to_s3 c query database output_bucket output_path max_execution w =
           (Inl e, w @ [Start_query_execution query database
                          (''s3://'' @ output_bucket @ ''/'' @ output_path)])"
    by (simp add: athena_to_s3_def)
  from s a show ?thesis
    by (simp add: submissions_def polls_def)
qed

theorem submission_error_propagates_witness:
  "athena_to_s3 (scripted_client (Inl (ClientError ''AccessDenied'')) [])
     ''SELECT 1'' ''db'' ''out'' ''q'' 100 []
   = (Inl (ClientError ''AccessDenied''), [Start_query_execution ''SELECT 1'' ''db'' ''s3://out/q''])
   \<and> start_athena_query (scripted_client (Inl (ClientError ''AccessDenied'')) [])
     ''SELECT 1'' ''db'' ''out'' ''q'' []
   = (Inl (ClientError ''AccessDenied''), [Start_query_execution ''SELECT 1'' ''db'' ''s3://out/q''])"
proof -
  let ?c = "scripted_client (Inl (ClientError ''AccessDenied'')) []"
  have s: "start_query_execution ?c ''SELECT 1'' ''db'' (''s3://'' @ ''out'' @ ''/'' @ ''q'')
             (submissions []) = Inl (ClientError ''AccessDenied'')"
    by (simp add: scripted_client_def)
  note t = submission_error_propagates [OF s, of 100]
  from t [THEN conjunct2, THEN conjunct1] t [THEN conjunct1]
  show ?thesis by simp
qed

text \<open>
  Claim C8. When a status response has no \<^verbatim>\<open>QueryExecution\<close> key, or has it without
  the \<^verbatim>\<open>Status\<close> key, the poller neither raises nor returns on that response: it
  keeps the state it had (RUNNING at the start), has one attempt fewer, sleeps a second
  and goes back to the test of the loop. The final trace holds that query and that
  sleep.
\<close>

theorem poller_missing_keys:
  assumes "0 < max_execution"
    and "state = ''RUNNING'' \<or> state = ''QUEUED''"
    and "get_query_execution c i (polls w) = Inr r"
    and "QueryExecution r = None \<or> (\<exists>qe. QueryExecution r = Some qe \<and> Status qe = None)"
  shows "wait_loop c i max_execution state w =
           wait_loop c i (max_execution - 1) state (w @ [Get_query_execution i, Sleep 1])
       \<and> wait_for_athena_query c i max_execution w =
           wait_loop c i (max_execution - 1) ''RUNNING'' (w @ [Get_query_execution i, Sleep 1])
       \<and> (\<exists>v. snd (wait_for_athena_query c i max_execution w) =
                 w @ [Get_query_execution i, Sleep 1] @ v)"
proof -
  from assms(4) have l: "lacks_status r"
    by (auto simp: lacks_status_def)
  have a: "wait_loop c i max_execution state w =
           wait_loop c i (max_execution - 1) state (w @ [Get_query_execution i, Sleep 1])"
    by (rule wait_loop_lacks_status [OF assms(1) assms(2) assms(3) l])
  have b: "wait_for_athena_query c i max_execution w =
           wait_loop c i (max_execution - 1) ''RUNNING'' (w @ [Get_query_execution i, Sleep 1])"
    unfolding wait_for_athena_query_def
    by (rule wait_loop_lacks_status [OF assms(1) _ assms(3) l]) simp
  from wait_loop_trace [of c i "max_execution - 1" "''RUNNING''" "w @ [Get_query_execution i, Sleep 1]"]
  obtain v where "snd (wait_loop c i (max_execution - 1) ''RUNNING'' (w @ [Get_query_execution i, Sleep 1]))
      = (w @ [Get_query_execution i, Sleep 1]) @ v"
    by (elim exE conjE)
  with b have "snd (wait_for_athena_query c i max_execution w) =
                 w @ [Get_query_execution i, Sleep 1] @ v" by simp
  then have c: "\<exists>v. snd (wait_for_athena_query c i max_execution w) =
                 w @ [Get_query_execution i, Sleep 1] @ v" by (rule exI)
  from a b c show ?thesis by (intro conjI)
qed

theorem poller_missing_keys_witness:
  "wait_for_athena_query
     (scripted_client (Inl (ClientError ''unused''))
        [Inr \<lparr>QueryExecution = None\<rparr>,
         Inr \<lparr>QueryExecution = Some \<lparr>Status = None, ResultConfiguration = None\<rparr>\<rparr>,
         Inr (response_succeeded ''s3://bucket/f.csv'')])
     ''id'' 5 []
   = (Inr (PyStr ''f.csv''),
      [Get_query_execution ''id'', Sleep 1, Get_query_execution ''id'', Sleep 1,
       Get_query_execution ''id''])"
proof -
  let ?c = "scripted_client (Inl (ClientError ''unused''))
        [Inr \<lparr>QueryExecution = None\<rparr>,
         Inr \<lparr>QueryExecution = Some \<lparr>Status = None, ResultConfiguration = None\<rparr>\<rparr>,
         Inr (response_succeeded ''s3://bucket/f.csv'')]"
  let ?w1 = "[Get_query_execution ''id'', Sleep 1]"
  have g0: "get_query_execution ?c ''id'' (polls []) = Inr \<lparr>QueryExecution = None\<rparr>"
    by (simp add: scripted_client_def polls_def)
  have g1: "get_query_execution ?c ''id'' (polls ([] @ ?w1)) =
              Inr \<lparr>QueryExecution = Some \<lparr>Status = None, ResultConfiguration = None\<rparr>\<rparr>"
    by (simp add: scripted_client_def polls_def)
  have s: "''RUNNING'' = ''RUNNING'' \<or> ''RUNNING'' = ''QUEUED''" by simp
  have "wait_for_athena_query ?c ''id'' 5 [] = wait_loop ?c ''id'' (5 - 1) ''RUNNING'' ([] @ ?w1)"
    by (rule poller_missing_keys [where max_execution = 5 and w = "[]", OF _ s g0,
          THEN conjunct2, THEN conjunct1]) simp_all
  also have "\<dots> = wait_loop ?c ''id'' (5 - 1 - 1) ''RUNNING'' (([] @ ?w1) @ ?w1)"
    by (rule poller_missing_keys [OF _ s g1, THEN conjunct1]) simp_all
  also have "\<dots> = (Inr (PyStr ''f.csv''), ?w1 @ ?w1 @ [Get_query_execution ''id''])"
    by (simp add: wait_loop.simps scripted_client_def response_succeeded_def polls_def
          extract_filename_def findall.simps dot_def)
  finally show ?thesis by simp
qed

text \<open>
  Claim C9. The extraction of the file name on SUCCEEDED is partial: for an output
  location that ends in a slash the poller should return the empty string, and for an
  output location with no slash at all the index into the empty match list raises
  \<^verbatim>\<open>IndexError\<close>, so that the success branch is safe only for locations with a
  slash. The second and the third part hold for every location
  (\<open>wait_succeeds_no_slash\<close>, \<open>wait_succeeds_slash\<close>), the first one for every
  location of one line (\<open>wait_succeeds_trailing_slash\<close>). On a location that ends in
  a slash and has a slash in an earlier line the poller returns the end of that earlier
  line: for \<^verbatim>\<open>s3://bucket/x\<close>, a newline and a slash it returns \<^verbatim>\<open>x\<close>, both when
  SUCCEEDED is the first answer and when it follows QUEUED and RUNNING. The cause is
  the one of claim C1, the dot that does not match the newline.
\<close>

theorem poller_trailing_slash_after_newline:
  "last (''s3://bucket/x'' @ [CHR 0x0A] @ ''/'') = CHR ''/''
   \<and> after_last_slash (''s3://bucket/x'' @ [CHR 0x0A] @ ''/'') = ''''
   \<and> wait_for_athena_query
       (scripted_client (Inl (ClientError ''unused''))
          [Inr (response_succeeded (''s3://bucket/x'' @ [CHR 0x0A] @ ''/''))])
       ''id'' 100 []
       = (Inr (PyStr ''x''), [Get_query_execution ''id''])
   \<and> wait_for_athena_query
       (scripted_client (Inl (ClientError ''unused''))
          [Inr (response_with_state ''QUEUED''), Inr (response_with_state ''RUNNING''),
           Inr (response_succeeded (''s3://bucket/x'' @ [CHR 0x0A] @ ''/''))])
       ''id'' 100 []
       = (Inr (PyStr ''x''),
          [Get_query_execution ''id'', Sleep 1, Get_query_execution ''id'', Sleep 1,
           Get_query_execution ''id''])
   \<and> PyStr ''x'' \<noteq> PyStr ''''"
  by (simp add: wait_for_athena_query_def wait_loop.simps scripted_client_def
        response_succeeded_def response_with_state_def polls_def extract_filename_def
        findall.simps dot_def after_last_slash_def)

end
